theory Spec2Isabelle
  imports Complex_Main
begin

section \<open>Numbers, points and truthiness\<close>

text \<open>
  The plugin is pure arithmetic on JavaScript numbers. They are modelled as real numbers:
  the model has no rounding, no NaN and no signed zero. A point (\<open>PointData\<close>, the
  \<open>{x, y}\<close> objects of the source) is a pair, \<open>fst\<close> its x and \<open>snd\<close> its y.
\<close>

type_synonym PointData = "real \<times> real"

text \<open>\<open>if (v)\<close> on a number: false exactly for 0 (and NaN, which the model does not have).\<close>

definition truthy :: "real \<Rightarrow> bool" where
  "truthy v = (v \<noteq> 0)"

text \<open>\<open>if (v)\<close> on a \<open>number | null\<close>: \<open>null\<close> is false too.\<close>

definition truthy_opt :: "real option \<Rightarrow> bool" where
  "truthy_opt v = (case v of None \<Rightarrow> False | Some r \<Rightarrow> truthy r)"

text \<open>\<open>Math.atan2(y, x)\<close>, the angle of the point \<open>(x, y)\<close> in \<open>(-pi, pi]\<close>; 0 at the origin.\<close>

definition atan2 :: "real \<Rightarrow> real \<Rightarrow> real" where
  "atan2 y x =
     (if 0 < x then arctan (y / x)
      else if x < 0 then (if 0 \<le> y then arctan (y / x) + pi else arctan (y / x) - pi)
      else if 0 < y then pi / 2
      else if y < 0 then - (pi / 2)
      else 0)"

text \<open>
  The quotient \<open>a / b\<close> of two numbers. With a zero divisor JavaScript gives an infinity or
  NaN and raises nothing; that outcome is \<open>None\<close> here.
\<close>

definition js_divide :: "real \<Rightarrow> real \<Rightarrow> real option" where
  "js_divide a b = (if b = 0 then None else Some (a / b))"

section \<open>The viewport and the target\<close>

text \<open>
  The plugin reads \<open>parent.center\<close>, calls \<open>parent.toWorld\<close>, \<open>parent.moveCenter\<close> and
  \<open>parent.emit\<close>. The conversion \<open>toWorld\<close> is a parameter of the model: the field holds
  the viewport's conversion from canvas to world coordinates. \<open>emitted\<close> is the log of the
  events emitted so far, oldest first, each the event name and the \<open>type\<close> of its payload.
\<close>

record Viewport =
  center :: PointData
  toWorld :: "PointData \<Rightarrow> PointData"
  emitted :: "(string \<times> string) list"

text \<open>
  Modelled from the spec: \<open>Viewport.moveCenter\<close> is not part of the source at hand. The
  spec calls it the mutator of the viewport's center: after \<open>moveCenter(x, y)\<close> the center
  is \<open>(x, y)\<close>.
\<close>

definition moveCenter :: "real \<Rightarrow> real \<Rightarrow> Viewport \<Rightarrow> Viewport" where
  "moveCenter cx cy vp = vp\<lparr>center := (cx, cy)\<rparr>"

text \<open>
  Modelled from the spec: \<open>Viewport.emit\<close> is not part of the source at hand. The spec
  calls it the change-notification emitter; the model appends the notification to the log.
\<close>

definition emit :: "string \<Rightarrow> string \<Rightarrow> Viewport \<Rightarrow> Viewport" where
  "emit name kind vp = vp\<lparr>emitted := emitted vp @ [(name, kind)]\<rparr>"

section \<open>Options\<close>

text \<open>
  \<open>IFollowOptions\<close>: every property may be absent (\<open>None\<close>); \<open>acceleration\<close> and \<open>radius\<close>
  may also be present and \<open>null\<close> (\<open>Some None\<close>).
\<close>

record IFollowOptions =
  speed_given :: "real option"
  acceleration_given :: "real option option"
  radius_given :: "real option option"
  followPoint_given :: "PointData option"

text \<open>
  The options the plugin holds (\<open>Required<IFollowOptions>\<close>). \<open>followPoint\<close> can be \<open>null\<close>
  here, since \<open>setFollowPoint\<close> stores \<open>null\<close> in it.
\<close>

record FollowOptions =
  speed :: real
  acceleration :: "real option"
  radius :: "real option"
  followPoint :: "PointData option"

definition DEFAULT_FOLLOW_OPTIONS :: FollowOptions where
  "DEFAULT_FOLLOW_OPTIONS =
     \<lparr>speed = 0, acceleration = None, radius = Some 0, followPoint = Some (0, 0)\<rparr>"

text \<open>\<open>Object.assign({}, DEFAULT_FOLLOW_OPTIONS, options)\<close>: a property that is present wins.\<close>

definition assign_options :: "FollowOptions \<Rightarrow> IFollowOptions \<Rightarrow> FollowOptions" where
  "assign_options d given =
     \<lparr>speed = (case speed_given given of None \<Rightarrow> speed d | Some v \<Rightarrow> v),
      acceleration = (case acceleration_given given of None \<Rightarrow> acceleration d | Some v \<Rightarrow> v),
      radius = (case radius_given given of None \<Rightarrow> radius d | Some v \<Rightarrow> v),
      followPoint = (case followPoint_given given of None \<Rightarrow> followPoint d | Some p \<Rightarrow> Some p)\<rparr>"

text \<open>The call \<open>new Follow(parent, target)\<close>, with no options: the empty object.\<close>

definition no_options :: IFollowOptions where
  "no_options =
     \<lparr>speed_given = None, acceleration_given = None, radius_given = None,
      followPoint_given = None\<rparr>"

section \<open>The plugin\<close>

text \<open>
  \<open>parent\<close> and \<open>paused\<close> are the fields of the base class \<open>Plugin\<close>; \<open>target\<close> is the
  position \<open>(target.x, target.y)\<close> of the followed display object.
\<close>

record Follow =
  parent :: Viewport
  paused :: bool
  options :: FollowOptions
  target :: PointData
  velocity :: PointData

definition new_Follow :: "Viewport \<Rightarrow> PointData \<Rightarrow> IFollowOptions \<Rightarrow> Follow" where
  "new_Follow vp tgt given =
     \<lparr>parent = vp, paused = False,
      options = assign_options DEFAULT_FOLLOW_OPTIONS given,
      target = tgt, velocity = (0, 0)\<rparr>"

definition setFollowPoint :: "PointData option \<Rightarrow> Follow \<Rightarrow> Follow" where
  "setFollowPoint point s = s\<lparr>options := (options s)\<lparr>followPoint := point\<rparr>\<rparr>"

definition getFollowPoint :: "Follow \<Rightarrow> PointData option" where
  "getFollowPoint s = followPoint (options s)"

subsection \<open>The steps of \<open>update\<close>\<close>

text \<open>Lines 88-89: the follow point in world coordinates.\<close>

definition followPointWorld :: "Follow \<Rightarrow> PointData" where
  "followPointWorld s =
     toWorld (parent s)
       (case followPoint (options s) of
          Some p \<Rightarrow> p
        | None \<Rightarrow> (fst (center (parent s)), snd (center (parent s))))"

text \<open>
  Lines 91-111: the position \<open>(toX, toY)\<close> to move to, or \<open>None\<close> where \<open>update\<close> returns
  because the target is within the radius.
\<close>

definition effectiveTarget :: "Follow \<Rightarrow> PointData option" where
  "effectiveTarget s =
     (let fpw = followPointWorld s; tx = fst (target s); ty = snd (target s) in
      if truthy_opt (radius (options s)) then
        (case radius (options s) of
           None \<Rightarrow> Some (tx, ty)
         | Some r \<Rightarrow>
             (let distance = sqrt ((ty - snd fpw)\<^sup>2 + (tx - fst fpw)\<^sup>2) in
              if distance > r then
                (let angle = atan2 (ty - snd fpw) (tx - fst fpw) in
                 Some (tx - cos angle * r, ty - sin angle * r))
              else None))
      else Some (tx, ty))"

text \<open>Lines 114-119: where the viewport center should be to put \<open>(toX, toY)\<close> at the follow point.\<close>

definition targetCenter :: "Follow \<Rightarrow> PointData \<Rightarrow> PointData" where
  "targetCenter s to =
     (let fpw = followPointWorld s;
          offsetX = fst fpw - fst (center (parent s));
          offsetY = snd fpw - snd (center (parent s))
      in (fst to - offsetX, snd to - offsetY))"

text \<open>\<open>parent.moveCenter(x, y); parent.emit('moved', {viewport: parent, type: 'follow'})\<close>.\<close>

definition moved :: "real \<Rightarrow> real \<Rightarrow> Follow \<Rightarrow> Follow" where
  "moved cx cy s = s\<lparr>parent := emit ''moved'' ''follow'' (moveCenter cx cy (parent s))\<rparr>"

text \<open>
  Lines 135-151: the velocity of this frame. The comparison \<open>distance > decelerationDistance\<close>
  is false where the quotient is not a number.
\<close>

definition decelerationDistance :: "PointData \<Rightarrow> real \<Rightarrow> real option" where
  "decelerationDistance v a = js_divide ((fst v)\<^sup>2 + (snd v)\<^sup>2) (2 * a)"

definition accelerating :: "PointData \<Rightarrow> real \<Rightarrow> real \<Rightarrow> bool" where
  "accelerating v a distance =
     (case decelerationDistance v a of None \<Rightarrow> False | Some dd \<Rightarrow> distance > dd)"

definition nextVelocity :: "Follow \<Rightarrow> real \<Rightarrow> real \<Rightarrow> real \<Rightarrow> PointData" where
  "nextVelocity s a distance elapsed =
     (if accelerating (velocity s) a distance then
        (min (fst (velocity s) + a * elapsed) (speed (options s)),
         min (snd (velocity s) + a * elapsed) (speed (options s)))
      else
        (max (fst (velocity s) - a * elapsed) 0,
         max (snd (velocity s) - a * elapsed) 0))"

text \<open>
  Lines 152-155 and 164-167: the new center, from the speeds \<open>vx\<close> and \<open>vy\<close> applied along
  the angle, each axis set to the target center where the change is larger than the delta.
\<close>

definition stepCenter :: "Follow \<Rightarrow> PointData \<Rightarrow> real \<Rightarrow> real \<Rightarrow> PointData" where
  "stepCenter s tc vx vy =
     (let deltaX = fst tc - fst (center (parent s));
          deltaY = snd tc - snd (center (parent s));
          angle = atan2 deltaY deltaX;
          changeX = cos angle * vx;
          changeY = sin angle * vy;
          x = (if \<bar>changeX\<bar> > \<bar>deltaX\<bar> then fst tc else fst (center (parent s)) + changeX);
          y = (if \<bar>changeY\<bar> > \<bar>deltaY\<bar> then snd tc else snd (center (parent s)) + changeY)
      in (x, y))"

text \<open>Lines 80-179.\<close>

definition update :: "real \<Rightarrow> Follow \<Rightarrow> Follow" where
  "update elapsed s =
     (if paused s then s
      else
        (case effectiveTarget s of
           None \<Rightarrow> s
         | Some to \<Rightarrow>
             (let tc = targetCenter s to;
                  deltaX = fst tc - fst (center (parent s));
                  deltaY = snd tc - snd (center (parent s))
              in
              if truthy deltaX \<or> truthy deltaY then
                (if truthy (speed (options s)) then
                   (if truthy_opt (acceleration (options s)) then
                      (case acceleration (options s) of
                         None \<Rightarrow> s
                       | Some a \<Rightarrow>
                           (let distance = sqrt (deltaX\<^sup>2 + deltaY\<^sup>2) in
                            if truthy distance then
                              (let s' = s\<lparr>velocity := nextVelocity s a distance elapsed\<rparr>;
                                   c = stepCenter s' tc (fst (velocity s')) (snd (velocity s'))
                               in moved (fst c) (snd c) s')
                            else s))
                    else
                      (let c = stepCenter s tc (speed (options s)) (speed (options s))
                       in moved (fst c) (snd c) s))
                 else moved (fst tc) (snd tc) s)
              else s)))"

text \<open>
  The delta \<open>(deltaX, deltaY)\<close> of lines 121-122, where \<open>update\<close> gets as far as computing
  it: not when paused, and not when it returns from the radius check.
\<close>

definition computedDelta :: "Follow \<Rightarrow> PointData option" where
  "computedDelta s =
     (if paused s then None
      else
        (case effectiveTarget s of
           None \<Rightarrow> None
         | Some to \<Rightarrow>
             Some (fst (targetCenter s to) - fst (center (parent s)),
                   snd (targetCenter s to) - snd (center (parent s)))))"


section \<open>Sequences of calls\<close>

text \<open>
  What happens to a plugin during its life: a frame (\<open>update(elapsed)\<close>), a call of
  \<open>setFollowPoint\<close>, or a change made from outside between two frames, which gives the
  viewport, the position of the target and the paused flag any new values.
\<close>

datatype action =
    Update real
  | SetFollowPoint "PointData option"
  | World Viewport PointData bool

fun perform :: "action \<Rightarrow> Follow \<Rightarrow> Follow" where
  "perform (Update elapsed) s = update elapsed s"
| "perform (SetFollowPoint point) s = setFollowPoint point s"
| "perform (World vp tgt p) s = s\<lparr>parent := vp, target := tgt, paused := p\<rparr>"

fun run :: "action list \<Rightarrow> Follow \<Rightarrow> Follow" where
  "run [] s = s"
| "run (a # as) s = run as (perform a s)"

fun elapsed_nonneg :: "action \<Rightarrow> bool" where
  "elapsed_nonneg (Update elapsed) = (0 \<le> elapsed)"
| "elapsed_nonneg (SetFollowPoint point) = True"
| "elapsed_nonneg (World vp tgt p) = True"

text \<open>Both components of the velocity are within \<open>[0, speed]\<close>.\<close>

definition velocity_in_range :: "Follow \<Rightarrow> bool" where
  "velocity_in_range s =
     (0 \<le> fst (velocity s) \<and> fst (velocity s) \<le> speed (options s)
      \<and> 0 \<le> snd (velocity s) \<and> snd (velocity s) \<le> speed (options s))"

text \<open>
  The conditions under which \<open>update\<close> reaches lines 140-143, the branch that
  accelerates: the conditions of every \<open>if\<close> on the way there.
\<close>

definition accelerationBranch :: "Follow \<Rightarrow> bool" where
  "accelerationBranch s =
     (\<not> paused s \<and>
      (case effectiveTarget s of
         None \<Rightarrow> False
       | Some to \<Rightarrow>
           (let tc = targetCenter s to;
                deltaX = fst tc - fst (center (parent s));
                deltaY = snd tc - snd (center (parent s))
            in (truthy deltaX \<or> truthy deltaY) \<and> truthy (speed (options s))
               \<and> truthy_opt (acceleration (options s))
               \<and> (case acceleration (options s) of
                     None \<Rightarrow> False
                   | Some a \<Rightarrow>
                       (let distance = sqrt (deltaX\<^sup>2 + deltaY\<^sup>2)
                        in truthy distance \<and> accelerating (velocity s) a distance)))))"

text \<open>Every frame of the sequence takes the branch that accelerates.\<close>

fun all_accelerating :: "action list \<Rightarrow> Follow \<Rightarrow> bool" where
  "all_accelerating [] s = True"
| "all_accelerating (Update elapsed # as) s =
     (accelerationBranch s \<and> all_accelerating as (update elapsed s))"
| "all_accelerating (a # as) s = all_accelerating as (perform a s)"

section \<open>A concrete scene\<close>

text \<open>
  A viewport whose canvas and world coordinates coincide, centered at \<open>c\<close>, and a plugin
  constructed on such a viewport centered at the origin, following a target at \<open>(100, 0)\<close>.
\<close>

definition viewportAt :: "PointData \<Rightarrow> Viewport" where
  "viewportAt c = \<lparr>center = c, toWorld = (\<lambda>p. p), emitted = []\<rparr>"

definition sceneOptions :: "real \<Rightarrow> real option \<Rightarrow> real option \<Rightarrow> IFollowOptions" where
  "sceneOptions sp acc rad =
     \<lparr>speed_given = Some sp, acceleration_given = Some acc, radius_given = Some rad,
      followPoint_given = None\<rparr>"

definition scene :: "real \<Rightarrow> real option \<Rightarrow> real option \<Rightarrow> Follow" where
  "scene sp acc rad = new_Follow (viewportAt (0, 0)) (100, 0) (sceneOptions sp acc rad)"

section \<open>Facts about the pieces\<close>

subsection \<open>The angle\<close>

lemma sqrt_ratio: "x \<noteq> 0 \<Longrightarrow> sqrt (1 + (y / x)\<^sup>2) = sqrt (x\<^sup>2 + y\<^sup>2) / \<bar>x\<bar>"
proof -
  assume "x \<noteq> 0"
  then have "1 + (y / x)\<^sup>2 = (x\<^sup>2 + y\<^sup>2) / x\<^sup>2"
    by (simp add: field_simps power2_eq_square)
  then show ?thesis by (simp add: real_sqrt_divide)
qed

lemma cos_atan2: "x \<noteq> 0 \<or> y \<noteq> 0 \<Longrightarrow> cos (atan2 y x) = x / sqrt (x\<^sup>2 + y\<^sup>2)"
  using sqrt_ratio [of x y]
  by (auto simp add: atan2_def cos_arctan)

lemma sin_atan2: "x \<noteq> 0 \<or> y \<noteq> 0 \<Longrightarrow> sin (atan2 y x) = y / sqrt (x\<^sup>2 + y\<^sup>2)"
  using sqrt_ratio [of x y]
  by (auto simp add: atan2_def sin_arctan)

lemma cos_atan2_sign: "0 \<le> cos (atan2 y x) * x"
proof (cases "x \<noteq> 0 \<or> y \<noteq> 0")
  case True
  have "0 \<le> x * x / sqrt (x\<^sup>2 + y\<^sup>2)" by simp
  then show ?thesis using cos_atan2 [OF True] by simp
next
  case False
  then show ?thesis by simp
qed

lemma sin_atan2_sign: "0 \<le> sin (atan2 y x) * y"
proof (cases "x \<noteq> 0 \<or> y \<noteq> 0")
  case True
  have "0 \<le> y * y / sqrt (x\<^sup>2 + y\<^sup>2)" by simp
  then show ?thesis using sin_atan2 [OF True] by simp
next
  case False
  then show ?thesis by simp
qed

lemma atan2_east: "0 < x \<Longrightarrow> atan2 0 x = 0"
  by (simp add: atan2_def)

lemma polar_norm: "sqrt ((cos a * k)\<^sup>2 + (sin a * k)\<^sup>2) = \<bar>k\<bar>"
proof -
  have "(cos a * k)\<^sup>2 + (sin a * k)\<^sup>2 = ((cos a)\<^sup>2 + (sin a)\<^sup>2) * k\<^sup>2"
    by (simp only: power_mult_distrib distrib_right)
  then show ?thesis by simp
qed

subsection \<open>One step towards the target center\<close>

lemma step_between:
  fixes c d ch :: real
  assumes "0 \<le> ch * d" and "\<bar>ch\<bar> \<le> \<bar>d\<bar>"
  shows "min c (c + d) \<le> c + ch \<and> c + ch \<le> max c (c + d)"
  using assms by (auto simp add: zero_le_mult_iff min_def max_def)

lemma stepCenter_between:
  assumes "0 \<le> vx" and "0 \<le> vy"
  shows "min (fst (center (parent s))) (fst tc) \<le> fst (stepCenter s tc vx vy)
       \<and> fst (stepCenter s tc vx vy) \<le> max (fst (center (parent s))) (fst tc)
       \<and> min (snd (center (parent s))) (snd tc) \<le> snd (stepCenter s tc vx vy)
       \<and> snd (stepCenter s tc vx vy) \<le> max (snd (center (parent s))) (snd tc)"
proof -
  define cx where "cx = fst (center (parent s))"
  define cy where "cy = snd (center (parent s))"
  define dx where "dx = fst tc - cx"
  define dy where "dy = snd tc - cy"
  define chx where "chx = cos (atan2 dy dx) * vx"
  define chy where "chy = sin (atan2 dy dx) * vy"
  have tcx: "fst tc = cx + dx" and tcy: "snd tc = cy + dy"
    by (simp_all add: dx_def dy_def)
  have "0 \<le> vx * (cos (atan2 dy dx) * dx)" "0 \<le> vy * (sin (atan2 dy dx) * dy)"
    using assms cos_atan2_sign [of dy dx] sin_atan2_sign [of dy dx] by simp_all
  then have sx: "0 \<le> chx * dx" and sy: "0 \<le> chy * dy"
    by (simp_all add: chx_def chy_def mult.assoc mult.left_commute mult.commute)
  have X: "fst (stepCenter s tc vx vy) = (if \<bar>chx\<bar> > \<bar>dx\<bar> then cx + dx else cx + chx)"
    and Y: "snd (stepCenter s tc vx vy) = (if \<bar>chy\<bar> > \<bar>dy\<bar> then cy + dy else cy + chy)"
    by (simp_all add: stepCenter_def Let_def cx_def cy_def dx_def dy_def chx_def chy_def)
  have "min cx (cx + dx) \<le> (if \<bar>chx\<bar> > \<bar>dx\<bar> then cx + dx else cx + chx)
      \<and> (if \<bar>chx\<bar> > \<bar>dx\<bar> then cx + dx else cx + chx) \<le> max cx (cx + dx)"
    using step_between [OF sx, of cx] by (cases "\<bar>chx\<bar> > \<bar>dx\<bar>") simp_all
  moreover have "min cy (cy + dy) \<le> (if \<bar>chy\<bar> > \<bar>dy\<bar> then cy + dy else cy + chy)
      \<and> (if \<bar>chy\<bar> > \<bar>dy\<bar> then cy + dy else cy + chy) \<le> max cy (cy + dy)"
    using step_between [OF sy, of cy] by (cases "\<bar>chy\<bar> > \<bar>dy\<bar>") simp_all
  ultimately show ?thesis
    unfolding X Y tcx tcy cx_def [symmetric] cy_def [symmetric] by simp
qed

subsection \<open>What a move changes\<close>

lemma moved_center: "center (parent (moved cx cy s)) = (cx, cy)"
  by (simp add: moved_def emit_def moveCenter_def)

lemma moved_emitted:
  "emitted (parent (moved cx cy s)) = emitted (parent s) @ [(''moved'', ''follow'')]"
  by (simp add: moved_def emit_def moveCenter_def)

lemma moved_fields:
  "options (moved cx cy s) = options s" "velocity (moved cx cy s) = velocity s"
  by (simp_all add: moved_def)

lemma update_options: "options (update elapsed s) = options s"
  by (simp add: update_def Let_def moved_fields split: option.splits)

lemma computedDelta_Some:
  assumes "computedDelta s = Some d"
  shows "\<not> paused s
     \<and> (\<exists>to. effectiveTarget s = Some to
           \<and> d = (fst (targetCenter s to) - fst (center (parent s)),
                  snd (targetCenter s to) - snd (center (parent s))))"
  using assms by (auto simp add: computedDelta_def split: if_splits option.splits)

subsection \<open>The velocity\<close>

lemma update_velocity:
  "velocity (update elapsed s) = velocity s
   \<or> (\<exists>a d. acceleration (options s) = Some a \<and> a \<noteq> 0
          \<and> velocity (update elapsed s) = nextVelocity s a d elapsed)"
  by (auto simp add: update_def Let_def moved_fields truthy_opt_def truthy_def
      split: option.splits)

lemma accelerationBranch_velocity:
  assumes "accelerationBranch s" and "acceleration (options s) = Some a"
  shows "velocity (update elapsed s)
     = (min (fst (velocity s) + a * elapsed) (speed (options s)),
        min (snd (velocity s) + a * elapsed) (speed (options s)))"
  using assms
  by (auto simp add: accelerationBranch_def update_def Let_def moved_fields nextVelocity_def
      split: option.splits)

lemma nextVelocity_nonneg:
  assumes "0 \<le> speed (options s)" and "0 \<le> a" and "0 \<le> elapsed"
    and "0 \<le> fst (velocity s)" and "0 \<le> snd (velocity s)"
  shows "0 \<le> fst (nextVelocity s a distance elapsed)
     \<and> 0 \<le> snd (nextVelocity s a distance elapsed)"
  using assms by (simp add: nextVelocity_def)

lemma nextVelocity_in_range:
  assumes "velocity_in_range s" and "0 \<le> a" and "0 \<le> elapsed"
  shows "velocity_in_range (s\<lparr>velocity := nextVelocity s a d elapsed\<rparr>)"
proof -
  have "0 \<le> a * elapsed" using assms(2,3) by simp
  then show ?thesis
    using assms(1) by (auto simp add: velocity_in_range_def nextVelocity_def min_def max_def)
qed

lemma update_in_range:
  assumes "velocity_in_range s" and "acceleration (options s) = Some a" and "0 < a"
    and "0 \<le> elapsed"
  shows "velocity_in_range (update elapsed s)"
proof -
  from update_velocity [of elapsed s]
  show ?thesis
  proof
    assume "velocity (update elapsed s) = velocity s"
    then show ?thesis
      using assms(1) by (simp add: velocity_in_range_def update_options)
  next
    assume "\<exists>a d. acceleration (options s) = Some a \<and> a \<noteq> 0
          \<and> velocity (update elapsed s) = nextVelocity s a d elapsed"
    then obtain d where "velocity (update elapsed s) = nextVelocity s a d elapsed"
      using assms(2) by auto
    then show ?thesis
      using nextVelocity_in_range [of s a elapsed d] assms
      by (simp add: velocity_in_range_def update_options)
  qed
qed

lemma perform_in_range:
  assumes "velocity_in_range s" and "acceleration (options s) = Some a" and "0 < a"
    and "elapsed_nonneg act"
  shows "velocity_in_range (perform act s) \<and> acceleration (options (perform act s)) = Some a"
proof (cases act)
  case (Update e)
  then show ?thesis using assms update_in_range [of s a e] by (simp add: update_options)
next
  case (SetFollowPoint p)
  then show ?thesis using assms by (simp add: setFollowPoint_def velocity_in_range_def)
next
  case (World vp tgt p)
  then show ?thesis using assms by (simp add: velocity_in_range_def)
qed

lemma run_in_range:
  assumes "velocity_in_range s" and "acceleration (options s) = Some a" and "0 < a"
    and "list_all elapsed_nonneg acts"
  shows "velocity_in_range (run acts s)"
  using assms
proof (induction acts arbitrary: s)
  case Nil
  then show ?case by simp
next
  case (Cons act acts)
  have "velocity_in_range (perform act s) \<and> acceleration (options (perform act s)) = Some a"
    using perform_in_range [of s a act] Cons.prems by simp
  then show ?case using Cons.IH [of "perform act s"] Cons.prems by simp
qed

lemma run_speed: "speed (options (run acts s)) = speed (options s)"
proof (induction acts arbitrary: s)
  case Nil
  then show ?case by simp
next
  case (Cons act acts)
  have "speed (options (perform act s)) = speed (options s)"
    by (cases act) (simp_all add: update_options setFollowPoint_def)
  then show ?case using Cons.IH [of "perform act s"] by simp
qed

lemma new_Follow_in_range:
  "0 \<le> speed (options (new_Follow vp tgt opts)) \<Longrightarrow> velocity_in_range (new_Follow vp tgt opts)"
  by (simp add: velocity_in_range_def new_Follow_def)

lemma magnitude_bound:
  fixes vx vy sp :: real
  assumes "0 \<le> vx" "vx \<le> sp" "0 \<le> vy" "vy \<le> sp"
  shows "sqrt (vx\<^sup>2 + vy\<^sup>2) \<le> sqrt 2 * sp"
proof -
  have "vx\<^sup>2 \<le> sp\<^sup>2" "vy\<^sup>2 \<le> sp\<^sup>2"
    using assms by (simp_all add: power_mono)
  then have "vx\<^sup>2 + vy\<^sup>2 \<le> 2 * sp\<^sup>2" by simp
  then have "sqrt (vx\<^sup>2 + vy\<^sup>2) \<le> sqrt (2 * sp\<^sup>2)" by simp
  also have "\<dots> = sqrt 2 * sp" using assms by (simp add: real_sqrt_mult)
  finally show ?thesis .
qed

subsection \<open>The center after a frame\<close>

lemma stepCenter_parent:
  "parent s' = parent s \<Longrightarrow> stepCenter s' tc vx vy = stepCenter s tc vx vy"
  by (simp add: stepCenter_def Let_def)

lemma stepCenter_at_target:
  assumes "fst tc = fst (center (parent s))" and "snd tc = snd (center (parent s))"
  shows "stepCenter s tc vx vy = center (parent s)"
  using assms by (auto simp add: stepCenter_def Let_def prod_eq_iff)

lemma update_center_step:
  assumes eff: "effectiveTarget s = Some to" and np: "\<not> paused s"
    and sp: "truthy (speed (options s))"
  shows "center (parent (update elapsed s))
     = stepCenter s (targetCenter s to)
         (if truthy_opt (acceleration (options s)) then fst (velocity (update elapsed s))
          else speed (options s))
         (if truthy_opt (acceleration (options s)) then snd (velocity (update elapsed s))
          else speed (options s))"
proof -
  define tc where "tc = targetCenter s to"
  define dx where "dx = fst tc - fst (center (parent s))"
  define dy where "dy = snd tc - snd (center (parent s))"
  show ?thesis
  proof (cases "dx = 0 \<and> dy = 0")
    case True
    then have "update elapsed s = s"
      using eff np by (simp add: update_def Let_def truthy_def tc_def dx_def dy_def)
    moreover have "fst tc = fst (center (parent s))" "snd tc = snd (center (parent s))"
      using True by (simp_all add: dx_def dy_def)
    ultimately show ?thesis
      using stepCenter_at_target [of tc s] by (simp add: tc_def)
  next
    case False
    then have nz: "truthy dx \<or> truthy dy" by (auto simp add: truthy_def)
    have "0 < dx\<^sup>2 + dy\<^sup>2"
      using False sum_power2_gt_zero_iff [of dx dy] by blast
    then have "0 < sqrt (dx\<^sup>2 + dy\<^sup>2)" by (simp only: real_sqrt_gt_0_iff)
    then have dist: "truthy (sqrt (dx\<^sup>2 + dy\<^sup>2))" unfolding truthy_def by linarith
    show ?thesis
    proof (cases "truthy_opt (acceleration (options s))")
      case True
      then obtain a where a: "acceleration (options s) = Some a"
        by (auto simp add: truthy_opt_def split: option.splits)
      define s' where "s' = s\<lparr>velocity := nextVelocity s a (sqrt (dx\<^sup>2 + dy\<^sup>2)) elapsed\<rparr>"
      have u: "update elapsed s
          = moved (fst (stepCenter s' tc (fst (velocity s')) (snd (velocity s'))))
              (snd (stepCenter s' tc (fst (velocity s')) (snd (velocity s')))) s'"
        using eff np sp nz dist True a
        by (simp add: update_def Let_def tc_def [symmetric] dx_def [symmetric]
            dy_def [symmetric] s'_def [symmetric])
      have "parent s' = parent s" by (simp add: s'_def)
      then have st: "stepCenter s' tc vx vy = stepCenter s tc vx vy" for vx vy
        by (rule stepCenter_parent)
      show ?thesis
        using True unfolding u tc_def [symmetric]
        by (simp add: moved_center moved_fields st)
    next
      case False
      have "update elapsed s
          = moved (fst (stepCenter s tc (speed (options s)) (speed (options s))))
              (snd (stepCenter s tc (speed (options s)) (speed (options s)))) s"
        using eff np sp nz False
        by (simp add: update_def Let_def tc_def [symmetric] dx_def [symmetric]
            dy_def [symmetric])
      then show ?thesis
        using False unfolding tc_def [symmetric] by (simp add: moved_center)
    qed
  qed
qed

lemma update_velocity_nonneg:
  assumes "0 \<le> speed (options s)" and "0 \<le> fst (velocity s)" and "0 \<le> snd (velocity s)"
    and "0 \<le> elapsed" and "\<And>a. acceleration (options s) = Some a \<Longrightarrow> a \<noteq> 0 \<Longrightarrow> 0 \<le> a"
  shows "0 \<le> fst (velocity (update elapsed s)) \<and> 0 \<le> snd (velocity (update elapsed s))"
proof -
  from update_velocity [of elapsed s]
  show ?thesis
  proof
    assume "velocity (update elapsed s) = velocity s"
    then show ?thesis using assms(2,3) by simp
  next
    assume "\<exists>a d. acceleration (options s) = Some a \<and> a \<noteq> 0
          \<and> velocity (update elapsed s) = nextVelocity s a d elapsed"
    then obtain a d where a: "acceleration (options s) = Some a" "a \<noteq> 0"
      and v: "velocity (update elapsed s) = nextVelocity s a d elapsed"
      by blast
    have "0 \<le> a" using assms(5) [OF a] .
    then show ?thesis
      using nextVelocity_nonneg [of s a elapsed d] assms(1-4) v by simp
  qed
qed

subsection \<open>The scene\<close>

lemma scene_simps:
  "parent (scene sp acc rad) = viewportAt (0, 0)"
  "paused (scene sp acc rad) = False"
  "options (scene sp acc rad)
     = \<lparr>speed = sp, acceleration = acc, radius = rad, followPoint = Some (0, 0)\<rparr>"
  "target (scene sp acc rad) = (100, 0)"
  "velocity (scene sp acc rad) = (0, 0)"
  "followPointWorld (scene sp acc rad) = (0, 0)"
  "center (viewportAt c) = c"
  "emitted (viewportAt c) = []"
  by (simp_all add: scene_def sceneOptions_def viewportAt_def new_Follow_def assign_options_def
      followPointWorld_def DEFAULT_FOLLOW_OPTIONS_def)

lemma scene_plain:
  "effectiveTarget (scene sp acc None) = Some (100, 0)"
  "targetCenter (scene sp acc rad) (100, 0) = (100, 0)"
  "computedDelta (scene sp acc None) = Some (100, 0)"
  by (simp_all add: effectiveTarget_def targetCenter_def computedDelta_def scene_simps
      truthy_opt_def)

lemma scene_accelerationBranch:
  "0 < a \<Longrightarrow> sp \<noteq> 0 \<Longrightarrow> accelerationBranch (scene sp (Some a) None)"
  by (simp add: accelerationBranch_def scene_plain scene_simps truthy_def truthy_opt_def
      accelerating_def decelerationDistance_def js_divide_def)

section \<open>The claims\<close>

subsection \<open>Teleport\<close>

text \<open>
  C1: an \<open>update\<close> with \<open>speed = 0\<close> whose computed delta is not \<open>(0, 0)\<close> puts the
  viewport center at the effective target position (the raw target position where no
  radius applies) minus the offset of the world-space follow point from the center before
  the call, in that one call, and emits one \<open>moved\<close> notification of type \<open>follow\<close>.
\<close>

theorem teleport_reaches_target:
  assumes "speed (options s) = 0"
    and "computedDelta s = Some d" and "d \<noteq> (0, 0)"
  shows "\<exists>to. effectiveTarget s = Some to
      \<and> center (parent (update elapsed s))
          = (fst to - (fst (followPointWorld s) - fst (center (parent s))),
             snd to - (snd (followPointWorld s) - snd (center (parent s))))
      \<and> emitted (parent (update elapsed s)) = emitted (parent s) @ [(''moved'', ''follow'')]
      \<and> (\<not> truthy_opt (radius (options s)) \<longrightarrow> to = target s)"
proof -
  from computedDelta_Some [OF assms(2)] obtain to
    where np: "\<not> paused s" and to: "effectiveTarget s = Some to"
      and d: "d = (fst (targetCenter s to) - fst (center (parent s)),
                   snd (targetCenter s to) - snd (center (parent s)))"
    by blast
  from d assms(3) have nz: "truthy (fst (targetCenter s to) - fst (center (parent s)))
      \<or> truthy (snd (targetCenter s to) - snd (center (parent s)))"
    by (auto simp add: truthy_def)
  have upd: "update elapsed s = moved (fst (targetCenter s to)) (snd (targetCenter s to)) s"
    using np to nz assms(1) by (auto simp add: update_def Let_def truthy_def)
  have raw: "\<not> truthy_opt (radius (options s)) \<longrightarrow> to = target s"
    using to by (auto simp add: effectiveTarget_def Let_def)
  show ?thesis
    using to upd raw
    by (simp add: moved_center moved_emitted targetCenter_def Let_def)
qed

theorem teleport_reaches_target_witness:
  "speed (options (scene 0 None None)) = 0
   \<and> computedDelta (scene 0 None None) = Some (100, 0)
   \<and> center (parent (update 1 (scene 0 None None))) = (100, 0)
   \<and> emitted (parent (update 1 (scene 0 None None))) = [(''moved'', ''follow'')]"
  using teleport_reaches_target [of "scene 0 None None" "(100, 0)" 1]
  by (simp add: scene_plain scene_simps)

subsection \<open>The radius\<close>

text \<open>
  C2: with a radius \<open>r > 0\<close>, if the distance between the target position and the
  world-space follow point is at most \<open>r\<close>, then \<open>update\<close> changes nothing, whatever
  \<open>elapsed\<close> is: the state after the call is the state before it, so the center has not
  moved, nothing has been emitted and the velocity is what it was.
\<close>

theorem update_within_radius_noop:
  assumes "radius (options s) = Some r" and "0 < r"
    and "sqrt ((snd (target s) - snd (followPointWorld s))\<^sup>2
               + (fst (target s) - fst (followPointWorld s))\<^sup>2) \<le> r"
  shows "update elapsed s = s"
proof -
  have "effectiveTarget s = None"
    using assms by (simp add: effectiveTarget_def truthy_opt_def truthy_def Let_def)
  then show ?thesis by (simp add: update_def)
qed

theorem update_within_radius_noop_witness:
  "radius (options (scene 0 None (Some 150))) = Some 150
   \<and> update 1 (scene 0 None (Some 150)) = scene 0 None (Some 150)"
  using update_within_radius_noop [of "scene 0 None (Some 150)" 150 1]
  by (simp add: scene_simps)

text \<open>
  C3, as the spec states it, does not hold: with the target at distance \<open>d > r\<close> from the
  follow point, the effective target position is not the point \<open>r\<close> away from the follow
  point. In the scene the follow point is the origin and the target is at \<open>(100, 0)\<close>;
  with radius 10 the code moves towards \<open>(90, 0)\<close>, and the point 10 away from the follow
  point along the bearing is \<open>(10, 0)\<close>.
\<close>

theorem radius_from_follow_point_counterexample:
  "radius (options (scene 0 None (Some 10))) = Some 10
   \<and> sqrt ((snd (target (scene 0 None (Some 10)))
             - snd (followPointWorld (scene 0 None (Some 10))))\<^sup>2
           + (fst (target (scene 0 None (Some 10)))
             - fst (followPointWorld (scene 0 None (Some 10))))\<^sup>2) > 10
   \<and> effectiveTarget (scene 0 None (Some 10)) = Some (90, 0)
   \<and> (fst (followPointWorld (scene 0 None (Some 10))) + cos (atan2 (0 - 0) (100 - 0)) * 10,
       snd (followPointWorld (scene 0 None (Some 10))) + sin (atan2 (0 - 0) (100 - 0)) * 10)
      = (10, 0)
   \<and> (90, 0) \<noteq> ((10, 0) :: PointData)"
  by (simp add: scene_simps atan2_east effectiveTarget_def truthy_opt_def truthy_def)

text \<open>
  C3, amended: with a radius \<open>r > 0\<close> and the target at distance \<open>d > r\<close> from the
  world-space follow point, the effective target position is the point exactly \<open>r\<close> away
  from the target position, back towards the follow point along the bearing
  \<open>a = atan2(target.y - followPoint.y, target.x - followPoint.x)\<close>: it is
  \<open>target - r (cos a, sin a)\<close>, which is the point at distance \<open>d - r\<close> from the follow
  point along that bearing.
\<close>

theorem effectiveTarget_outside_radius:
  fixes s :: Follow and r :: real
  defines "fx \<equiv> fst (followPointWorld s)" and "fy \<equiv> snd (followPointWorld s)"
    and "tx \<equiv> fst (target s)" and "ty \<equiv> snd (target s)"
  defines "d \<equiv> sqrt ((ty - fy)\<^sup>2 + (tx - fx)\<^sup>2)" and "a \<equiv> atan2 (ty - fy) (tx - fx)"
  assumes "radius (options s) = Some r" and "0 < r" and "d > r"
  shows "effectiveTarget s = Some (tx - cos a * r, ty - sin a * r)
     \<and> sqrt ((tx - (tx - cos a * r))\<^sup>2 + (ty - (ty - sin a * r))\<^sup>2) = r
     \<and> (tx - cos a * r, ty - sin a * r) = (fx + cos a * (d - r), fy + sin a * (d - r))
     \<and> sqrt ((tx - cos a * r - fx)\<^sup>2 + (ty - sin a * r - fy)\<^sup>2) = d - r"
proof -
  have eff: "effectiveTarget s = Some (tx - cos a * r, ty - sin a * r)"
    using assms by (simp add: effectiveTarget_def truthy_opt_def truthy_def Let_def)
  have away: "sqrt ((tx - (tx - cos a * r))\<^sup>2 + (ty - (ty - sin a * r))\<^sup>2) = r"
    using \<open>0 < r\<close> polar_norm [of a r] by simp
  have dpos: "0 < d" using \<open>0 < r\<close> \<open>d > r\<close> by simp
  then have nz: "tx - fx \<noteq> 0 \<or> ty - fy \<noteq> 0"
    unfolding d_def by (auto intro: ccontr)
  have dd: "d = sqrt ((tx - fx)\<^sup>2 + (ty - fy)\<^sup>2)" unfolding d_def by (simp add: add.commute)
  have c: "cos a * d = tx - fx" and sn: "sin a * d = ty - fy"
    using cos_atan2 [OF nz] sin_atan2 [OF nz] dpos unfolding a_def dd by simp_all
  have onray: "(tx - cos a * r, ty - sin a * r) = (fx + cos a * (d - r), fy + sin a * (d - r))"
    using c sn by (simp add: algebra_simps)
  have "tx - cos a * r - fx = cos a * (d - r)" "ty - sin a * r - fy = sin a * (d - r)"
    using c sn by (simp_all add: algebra_simps)
  then have far: "sqrt ((tx - cos a * r - fx)\<^sup>2 + (ty - sin a * r - fy)\<^sup>2) = d - r"
    using \<open>d > r\<close> polar_norm [of a "d - r"] by simp
  show ?thesis using eff away onray far by blast
qed

theorem effectiveTarget_outside_radius_witness:
  "radius (options (scene 0 None (Some 10))) = Some 10
   \<and> effectiveTarget (scene 0 None (Some 10)) = Some (90, 0)"
  using effectiveTarget_outside_radius [of "scene 0 None (Some 10)" 10]
  by (simp add: scene_simps atan2_east)

subsection \<open>The velocity\<close>

text \<open>
  C4: with \<open>speed \<ge> 0\<close>, \<open>acceleration > 0\<close> and \<open>elapsed \<ge> 0\<close> in every call, both
  components of the velocity are in \<open>[0, speed]\<close> at every moment: the constructor sets the
  velocity to \<open>(0, 0)\<close>, and the range holds after any sequence of frames, calls of
  \<open>setFollowPoint\<close> and changes made from outside.
\<close>

theorem velocity_invariant:
  assumes "0 \<le> speed (options (new_Follow vp tgt opts))"
    and "acceleration (options (new_Follow vp tgt opts)) = Some a" and "0 < a"
    and "list_all elapsed_nonneg acts"
  shows "velocity (new_Follow vp tgt opts) = (0, 0)
     \<and> velocity_in_range (run acts (new_Follow vp tgt opts))"
  using run_in_range [OF new_Follow_in_range, of vp tgt opts a acts] assms
  by (simp add: new_Follow_def)

theorem velocity_invariant_witness:
  "list_all elapsed_nonneg [Update 1, World (viewportAt (2, 0)) (50, 50) False, Update 2]
   \<and> velocity_in_range
       (run [Update 1, World (viewportAt (2, 0)) (50, 50) False, Update 2]
         (scene 5 (Some 2) None))"
  using velocity_invariant [of "viewportAt (0, 0)" "(100, 0)" "sceneOptions 5 (Some 2) None" 2
      "[Update 1, World (viewportAt (2, 0)) (50, 50) False, Update 2]"]
  by (simp add: scene_def sceneOptions_def new_Follow_def assign_options_def)

text \<open>
  C5, as the spec states it, does not hold: the two components of the velocity are each
  capped at \<open>speed\<close>, not their magnitude. In the scene with speed 5 and acceleration 5,
  one frame with \<open>elapsed = 1\<close> takes the branch that accelerates and leaves the velocity at
  \<open>(5, 5)\<close>, of magnitude \<open>sqrt 50 > 5\<close>.
\<close>

theorem velocity_magnitude_counterexample:
  "0 < speed (options (scene 5 (Some 5) None))
   \<and> acceleration (options (scene 5 (Some 5) None)) = Some 5
   \<and> list_all elapsed_nonneg [Update 1]
   \<and> all_accelerating [Update 1] (scene 5 (Some 5) None)
   \<and> velocity (run [Update 1] (scene 5 (Some 5) None)) = (5, 5)
   \<and> \<not> sqrt ((fst (velocity (run [Update 1] (scene 5 (Some 5) None))))\<^sup>2
             + (snd (velocity (run [Update 1] (scene 5 (Some 5) None))))\<^sup>2)
         \<le> speed (options (scene 5 (Some 5) None))"
proof -
  have v: "nextVelocity (scene 5 (Some 5) None) 5 100 1 = (5, 5)"
    by (simp add: nextVelocity_def accelerating_def decelerationDistance_def js_divide_def
        scene_simps)
  have u: "velocity (update 1 (scene 5 (Some 5) None)) = (5, 5)"
    by (simp add: update_def scene_plain v scene_simps truthy_def truthy_opt_def Let_def
        moved_fields)
  have "(5::real) < sqrt 50"
    by (rule real_less_rsqrt) simp
  then show ?thesis
    using u scene_accelerationBranch [of 5 5] by (simp add: scene_simps)
qed

text \<open>
  C5, amended: over any sequence of calls with \<open>speed > 0\<close>, \<open>acceleration > 0\<close> and
  \<open>elapsed \<ge> 0\<close> in which every frame takes the branch that accelerates, each component
  of the velocity never exceeds \<open>speed\<close>, so the magnitude
  \<open>sqrt(velocity.x\<^sup>2 + velocity.y\<^sup>2)\<close> never exceeds \<open>sqrt 2 * speed\<close>.
\<close>

theorem accelerating_velocity_bound:
  assumes "0 < speed (options (new_Follow vp tgt opts))"
    and "acceleration (options (new_Follow vp tgt opts)) = Some a" and "0 < a"
    and "list_all elapsed_nonneg acts"
    and "all_accelerating acts (new_Follow vp tgt opts)"
  shows "fst (velocity (run acts (new_Follow vp tgt opts)))
           \<le> speed (options (new_Follow vp tgt opts))
     \<and> snd (velocity (run acts (new_Follow vp tgt opts)))
           \<le> speed (options (new_Follow vp tgt opts))
     \<and> sqrt ((fst (velocity (run acts (new_Follow vp tgt opts))))\<^sup>2
             + (snd (velocity (run acts (new_Follow vp tgt opts))))\<^sup>2)
         \<le> sqrt 2 * speed (options (new_Follow vp tgt opts))"
proof -
  have r: "velocity_in_range (run acts (new_Follow vp tgt opts))"
    using run_in_range [OF new_Follow_in_range, of vp tgt opts a acts] assms by simp
  show ?thesis
    using r magnitude_bound [of "fst (velocity (run acts (new_Follow vp tgt opts)))"
        "speed (options (new_Follow vp tgt opts))"
        "snd (velocity (run acts (new_Follow vp tgt opts)))"]
    by (simp add: velocity_in_range_def run_speed)
qed

theorem accelerating_velocity_bound_witness:
  "all_accelerating [Update 1] (scene 5 (Some 2) None)
   \<and> sqrt ((fst (velocity (run [Update 1] (scene 5 (Some 2) None))))\<^sup>2
           + (snd (velocity (run [Update 1] (scene 5 (Some 2) None))))\<^sup>2) \<le> sqrt 2 * 5"
  using accelerating_velocity_bound [of "viewportAt (0, 0)" "(100, 0)"
      "sceneOptions 5 (Some 2) None" 2 "[Update 1]"]
    scene_accelerationBranch [of 2 5]
  by (simp add: scene_def sceneOptions_def new_Follow_def assign_options_def)

subsection \<open>No overshoot\<close>

text \<open>
  C6, as the spec states it, does not hold for every call with \<open>speed > 0\<close>: nothing
  checks the sign of the acceleration. In the scene with speed 5 and acceleration \<open>-1\<close>,
  the first frame with \<open>elapsed = 1\<close> makes the velocity \<open>(-1, -1)\<close> and moves the center
  from \<open>(0, 0)\<close> to \<open>(-1, 0)\<close>, away from the target center \<open>(100, 0)\<close>.
\<close>

theorem negative_acceleration_counterexample:
  "0 < speed (options (scene 5 (Some (- 1)) None))
   \<and> center (parent (scene 5 (Some (- 1)) None)) = (0, 0)
   \<and> effectiveTarget (scene 5 (Some (- 1)) None) = Some (100, 0)
   \<and> targetCenter (scene 5 (Some (- 1)) None) (100, 0) = (100, 0)
   \<and> center (parent (update 1 (scene 5 (Some (- 1)) None))) = (- 1, 0)
   \<and> \<not> (min 0 100 \<le> fst (center (parent (update 1 (scene 5 (Some (- 1)) None)))))"
proof -
  have v: "nextVelocity (scene 5 (Some (- 1)) None) (- 1) 100 1 = (- 1, - 1)"
    by (simp add: nextVelocity_def accelerating_def decelerationDistance_def js_divide_def
        scene_simps)
  have u: "center (parent (update 1 (scene 5 (Some (- 1)) None))) = (- 1, 0)"
    by (simp add: update_def scene_plain v scene_simps truthy_def truthy_opt_def Let_def
        stepCenter_def atan2_east moved_center)
  show ?thesis using u by (simp add: scene_plain scene_simps)
qed

text \<open>
  C6, amended: for every \<open>update\<close> with \<open>speed > 0\<close> that has an effective target
  position, where, if an acceleration is set, it is positive, \<open>elapsed \<ge> 0\<close> and both
  components of the velocity are at least 0 before the call (as they are in every state
  that C4 covers): on each axis the center after the call lies between the center before
  the call and the target center, both included. In a call that is not paused, an axis
  whose change (the cosine or sine of the bearing times the speed of that axis: \<open>speed\<close>
  itself without acceleration, the component of the velocity after this frame with it) is
  larger in magnitude than its delta is set exactly to the target center, and any other
  axis moves by its change; so neither axis goes past the target center.
\<close>

theorem update_no_overshoot:
  fixes s :: Follow and to :: PointData and elapsed :: real
  defines "tc \<equiv> targetCenter s to"
  defines "deltaX \<equiv> fst tc - fst (center (parent s))"
    and "deltaY \<equiv> snd tc - snd (center (parent s))"
  defines "vx \<equiv> (if truthy_opt (acceleration (options s))
                  then fst (velocity (update elapsed s)) else speed (options s))"
    and "vy \<equiv> (if truthy_opt (acceleration (options s))
                  then snd (velocity (update elapsed s)) else speed (options s))"
  defines "changeX \<equiv> cos (atan2 deltaY deltaX) * vx"
    and "changeY \<equiv> sin (atan2 deltaY deltaX) * vy"
  assumes eff: "effectiveTarget s = Some to" and sp: "0 < speed (options s)"
    and acc: "truthy_opt (acceleration (options s)) \<Longrightarrow>
        0 < the (acceleration (options s)) \<and> 0 \<le> elapsed
        \<and> 0 \<le> fst (velocity s) \<and> 0 \<le> snd (velocity s)"
  shows "min (fst (center (parent s))) (fst tc) \<le> fst (center (parent (update elapsed s)))
       \<and> fst (center (parent (update elapsed s))) \<le> max (fst (center (parent s))) (fst tc)
       \<and> min (snd (center (parent s))) (snd tc) \<le> snd (center (parent (update elapsed s)))
       \<and> snd (center (parent (update elapsed s))) \<le> max (snd (center (parent s))) (snd tc)
       \<and> (\<not> paused s \<longrightarrow>
            fst (center (parent (update elapsed s)))
              = (if \<bar>changeX\<bar> > \<bar>deltaX\<bar> then fst tc else fst (center (parent s)) + changeX)
          \<and> snd (center (parent (update elapsed s)))
              = (if \<bar>changeY\<bar> > \<bar>deltaY\<bar> then snd tc else snd (center (parent s)) + changeY))"
proof (cases "paused s")
  case True
  then have "update elapsed s = s" by (simp add: update_def)
  then show ?thesis using True by (simp add: min_def max_def)
next
  case False
  have st: "center (parent (update elapsed s)) = stepCenter s tc vx vy"
    using update_center_step [OF eff False, of elapsed] sp
    by (simp add: truthy_def tc_def vx_def vy_def)
  have nonneg: "0 \<le> vx \<and> 0 \<le> vy"
  proof (cases "truthy_opt (acceleration (options s))")
    case True
    have a: "0 \<le> a" if "acceleration (options s) = Some a" for a
      using acc [OF True] that by simp
    have "0 \<le> fst (velocity (update elapsed s)) \<and> 0 \<le> snd (velocity (update elapsed s))"
      using acc [OF True] sp a by (intro update_velocity_nonneg) simp_all
    then show ?thesis using True by (simp add: vx_def vy_def)
  next
    case False
    then show ?thesis using sp by (simp add: vx_def vy_def)
  qed
  have between: "min (fst (center (parent s))) (fst tc) \<le> fst (stepCenter s tc vx vy)
       \<and> fst (stepCenter s tc vx vy) \<le> max (fst (center (parent s))) (fst tc)
       \<and> min (snd (center (parent s))) (snd tc) \<le> snd (stepCenter s tc vx vy)
       \<and> snd (stepCenter s tc vx vy) \<le> max (snd (center (parent s))) (snd tc)"
    using stepCenter_between [of vx vy s tc] nonneg by simp
  have snap: "fst (stepCenter s tc vx vy)
              = (if \<bar>changeX\<bar> > \<bar>deltaX\<bar> then fst tc else fst (center (parent s)) + changeX)
          \<and> snd (stepCenter s tc vx vy)
              = (if \<bar>changeY\<bar> > \<bar>deltaY\<bar> then snd tc else snd (center (parent s)) + changeY)"
    by (simp add: stepCenter_def Let_def changeX_def changeY_def deltaX_def deltaY_def)
  show ?thesis using between snap unfolding st by simp
qed

theorem update_no_overshoot_witness:
  "effectiveTarget ((scene 5 None None)\<lparr>target := (3, 0)\<rparr>) = Some (3, 0)
   \<and> effectiveTarget ((scene 5 (Some 5) None)\<lparr>target := (3, 0)\<rparr>) = Some (3, 0)
   \<and> truthy_opt (acceleration (options ((scene 5 (Some 5) None)\<lparr>target := (3, 0)\<rparr>)))
   \<and> center (parent ((scene 5 None None)\<lparr>target := (3, 0)\<rparr>)) = (0, 0)
   \<and> center (parent (update 1 ((scene 5 None None)\<lparr>target := (3, 0)\<rparr>))) = (3, 0)
   \<and> center (parent (update 1 ((scene 5 (Some 5) None)\<lparr>target := (3, 0)\<rparr>))) = (3, 0)
   \<and> center (parent (update 1 (scene 5 (Some 2) None))) = (2, 0)"
proof -
  have f: "followPointWorld ((scene sp acc None)\<lparr>target := (3, 0)\<rparr>) = (0, 0)" for sp acc
    by (simp add: followPointWorld_def scene_simps viewportAt_def)
  have e: "effectiveTarget ((scene sp acc None)\<lparr>target := (3, 0)\<rparr>) = Some (3, 0)"
    for sp acc
    by (simp add: effectiveTarget_def f scene_simps truthy_opt_def)
  have t: "targetCenter ((scene sp acc None)\<lparr>target := (3, 0)\<rparr>) (3, 0) = (3, 0)"
    for sp acc
    by (simp add: targetCenter_def f scene_simps)
  have b: "accelerationBranch ((scene 5 (Some 5) None)\<lparr>target := (3, 0)\<rparr>)"
    by (simp add: accelerationBranch_def e t scene_simps truthy_def truthy_opt_def
        accelerating_def decelerationDistance_def js_divide_def)
  have v: "velocity (update 1 ((scene 5 (Some 5) None)\<lparr>target := (3, 0)\<rparr>)) = (5, 5)"
    using accelerationBranch_velocity [OF b, of 5 1] by (simp add: scene_simps)
  have w: "velocity (update 1 (scene 5 (Some 2) None)) = (2, 2)"
    using accelerationBranch_velocity [OF scene_accelerationBranch [of 2 5], of 2 1]
    by (simp add: scene_simps)
  show ?thesis
    using update_no_overshoot [of "(scene 5 None None)\<lparr>target := (3, 0)\<rparr>" "(3, 0)" 1]
      update_no_overshoot [of "(scene 5 (Some 5) None)\<lparr>target := (3, 0)\<rparr>" "(3, 0)" 1]
      update_no_overshoot [of "scene 5 (Some 2) None" "(100, 0)" 1]
    by (simp add: e t v w scene_plain scene_simps truthy_opt_def truthy_def atan2_east
        prod_eq_iff)
qed

subsection \<open>The default follow point\<close>

text \<open>
  C7 says that a plugin constructed without a \<open>followPoint\<close> option reports \<open>null\<close> from
  \<open>getFollowPoint()\<close> and follows the viewport's center. The constructor does otherwise:
  the default options hold the point \<open>(0, 0)\<close>, so \<open>getFollowPoint()\<close> gives \<open>(0, 0)\<close> and
  \<open>update\<close> converts the canvas point \<open>(0, 0)\<close>, whatever the center of the viewport is.
\<close>

theorem default_followPoint_is_origin:
  "getFollowPoint (new_Follow vp tgt no_options) = Some (0, 0)
   \<and> getFollowPoint (new_Follow vp tgt no_options) \<noteq> None
   \<and> followPointWorld (new_Follow vp tgt no_options) = toWorld vp (0, 0)"
  by (simp add: getFollowPoint_def new_Follow_def no_options_def assign_options_def
      DEFAULT_FOLLOW_OPTIONS_def followPointWorld_def)

subsection \<open>The division\<close>

text \<open>
  C8: on the accelerated path (a nonzero delta, \<open>speed\<close> and \<open>acceleration\<close> both nonzero)
  the divisor \<open>2 * acceleration\<close> of the deceleration distance is not zero, so the quotient
  is a number; and since one of the deltas is not zero, the distance
  \<open>sqrt(deltaX\<^sup>2 + deltaY\<^sup>2)\<close> is positive, so the guard on the distance lets the call
  through: the viewport is moved and the notification emitted.
\<close>

theorem accelerated_path_divides_safely:
  assumes "computedDelta s = Some d" and "d \<noteq> (0, 0)"
    and "truthy (speed (options s))"
    and "acceleration (options s) = Some a" and "truthy a"
  shows "2 * a \<noteq> 0
     \<and> decelerationDistance (velocity s) a
         = Some (((fst (velocity s))\<^sup>2 + (snd (velocity s))\<^sup>2) / (2 * a))
     \<and> 0 < sqrt ((fst d)\<^sup>2 + (snd d)\<^sup>2)
     \<and> truthy (sqrt ((fst d)\<^sup>2 + (snd d)\<^sup>2))
     \<and> emitted (parent (update elapsed s)) = emitted (parent s) @ [(''moved'', ''follow'')]"
proof -
  have a: "a \<noteq> 0" using assms(5) by (simp add: truthy_def)
  then have dd: "decelerationDistance (velocity s) a
         = Some (((fst (velocity s))\<^sup>2 + (snd (velocity s))\<^sup>2) / (2 * a))"
    by (simp add: decelerationDistance_def js_divide_def)
  have nz: "fst d \<noteq> 0 \<or> snd d \<noteq> 0" using assms(2) by (cases d) auto
  then have "0 < (fst d)\<^sup>2 + (snd d)\<^sup>2"
    using sum_power2_gt_zero_iff [of "fst d" "snd d"] by blast
  then have pos: "0 < sqrt ((fst d)\<^sup>2 + (snd d)\<^sup>2)"
    by (simp only: real_sqrt_gt_0_iff)
  from computedDelta_Some [OF assms(1)] obtain to
    where np: "\<not> paused s" and to: "effectiveTarget s = Some to"
      and d: "d = (fst (targetCenter s to) - fst (center (parent s)),
                   snd (targetCenter s to) - snd (center (parent s)))"
    by blast
  have "emitted (parent (update elapsed s)) = emitted (parent s) @ [(''moved'', ''follow'')]"
    using np to nz pos assms(3,4) a unfolding d
    by (simp add: update_def Let_def truthy_def truthy_opt_def moved_emitted)
  moreover have "truthy (sqrt ((fst d)\<^sup>2 + (snd d)\<^sup>2))"
    using pos unfolding truthy_def by linarith
  moreover have "2 * a \<noteq> 0" using a by simp
  ultimately show ?thesis using dd pos by blast
qed

theorem accelerated_path_divides_safely_witness:
  "computedDelta (scene 5 (Some 1) None) = Some (100, 0)
   \<and> decelerationDistance (velocity (scene 5 (Some 1) None)) 1 = Some 0
   \<and> emitted (parent (update 1 (scene 5 (Some 1) None))) = [(''moved'', ''follow'')]"
  using accelerated_path_divides_safely [of "scene 5 (Some 1) None" "(100, 0)" 1 1]
  by (simp add: scene_plain scene_simps truthy_def)

subsection \<open>The follow point accessors\<close>

text \<open>
  C9: \<open>setFollowPoint(p)\<close> then \<open>getFollowPoint()\<close> gives \<open>p\<close>, for every point and for
  \<open>null\<close>; \<open>setFollowPoint\<close> changes only the follow point of the options, and
  \<open>getFollowPoint\<close> is a read of the state. Both are total: there is no error to raise.
  After \<open>setFollowPoint(null)\<close> the follow point in world coordinates is the conversion of
  the viewport's center.
\<close>

theorem setFollowPoint_getFollowPoint:
  "getFollowPoint (setFollowPoint p s) = p
   \<and> getFollowPoint (setFollowPoint None s) = None
   \<and> followPointWorld (setFollowPoint None s) = toWorld (parent s) (center (parent s))
   \<and> parent (setFollowPoint p s) = parent s
   \<and> paused (setFollowPoint p s) = paused s
   \<and> target (setFollowPoint p s) = target s
   \<and> velocity (setFollowPoint p s) = velocity s
   \<and> speed (options (setFollowPoint p s)) = speed (options s)
   \<and> acceleration (options (setFollowPoint p s)) = acceleration (options s)
   \<and> radius (options (setFollowPoint p s)) = radius (options s)"
  by (simp add: setFollowPoint_def getFollowPoint_def followPointWorld_def)

subsection \<open>Frames that leave the velocity alone\<close>

text \<open>
  C10: an \<open>update\<close> that does not reach the accelerated path with a positive distance
  leaves the velocity as it was: when paused, when the radius check returns, when both
  deltas are zero, when \<open>speed = 0\<close>, and when \<open>acceleration\<close> is \<open>null\<close> or 0.
\<close>

theorem update_keeps_velocity:
  assumes "paused s \<or> effectiveTarget s = None \<or> computedDelta s = Some (0, 0)
      \<or> speed (options s) = 0
      \<or> acceleration (options s) = None \<or> acceleration (options s) = Some 0"
  shows "velocity (update elapsed s) = velocity s"
  using assms
  by (auto simp add: update_def computedDelta_def Let_def truthy_def truthy_opt_def
      moved_fields split: option.splits if_splits)

theorem update_keeps_velocity_witness:
  "speed (options ((scene 0 None None)\<lparr>velocity := (3, 4)\<rparr>)) = 0
   \<and> center (parent (update 1 ((scene 0 None None)\<lparr>velocity := (3, 4)\<rparr>))) = (100, 0)
   \<and> velocity (update 1 ((scene 0 None None)\<lparr>velocity := (3, 4)\<rparr>)) = (3, 4)"
proof -
  have e: "effectiveTarget ((scene 0 None None)\<lparr>velocity := (3, 4)\<rparr>) = Some (100, 0)"
    by (simp add: effectiveTarget_def followPointWorld_def scene_simps truthy_opt_def)
  have t: "targetCenter ((scene 0 None None)\<lparr>velocity := (3, 4)\<rparr>) (100, 0) = (100, 0)"
    by (simp add: targetCenter_def followPointWorld_def scene_simps viewportAt_def)
  have c: "center (parent (update 1 ((scene 0 None None)\<lparr>velocity := (3, 4)\<rparr>))) = (100, 0)"
    by (simp add: update_def e t scene_simps truthy_def moved_center)
  show ?thesis
    using update_keeps_velocity [of "(scene 0 None None)\<lparr>velocity := (3, 4)\<rparr>" 1] c
    by (simp add: scene_simps)
qed

end
